theory Spec2Isabelle
  imports Complex_Main
begin

section \<open>Data model of \<^verbatim>\<open>saco-frontend/src/lib/api.ts\<close>\<close>

text \<open>
  The TypeScript interfaces become records. A JavaScript \<^verbatim>\<open>number\<close> that the code only
  carries around (latitude, longitude, distance) is a \<^typ>\<open>real\<close>; the radius, which the
  page takes from a slider through \<^verbatim>\<open>parseInt\<close>, is an \<^typ>\<open>int\<close>. An optional field
  (\<^verbatim>\<open>error?: string\<close>) is an \<^typ>\<open>'a option\<close>, \<^const>\<open>None\<close> standing for a missing
  field. A \<^verbatim>\<open>Record<string, Amenity[]>\<close> is an association list in the order of
  \<^verbatim>\<open>Object.entries\<close>. Field names that two interfaces share are told apart by a prefix:
  \<^verbatim>\<open>Coordinates.address\<close> is \<open>geo_address\<close>, \<^verbatim>\<open>Amenity.coordinates\<close> is \<open>position\<close>,
  \<^verbatim>\<open>AddressResponse.address\<close> is \<open>resp_address\<close>, the fields of \<^verbatim>\<open>AddressRequest\<close> are
  \<open>req_address\<close> and \<open>req_radius\<close>, and the \<^verbatim>\<open>result\<close> and \<^verbatim>\<open>error\<close> of the hook's
  \<^verbatim>\<open>ProcessingState\<close> are \<open>st_result\<close> and \<open>st_error\<close>.
\<close>

record Coordinates =
  latitude :: real
  longitude :: real
  geo_address :: string

record LatLon =
  lat :: real
  lon :: real

record Amenity =
  name :: string
  amenity_type :: string
  distance :: "real option"
  position :: "LatLon option"

record AddressResponse =
  success :: bool
  resp_address :: string
  coordinates :: "Coordinates option"
  amenities :: "Amenity list"
  categorized_amenities :: "(string \<times> Amenity list) list option"
  result :: "string option"
  error :: "string option"
  radius_used :: int

record AddressRequest =
  req_address :: string
  req_radius :: int

section \<open>The environment: exceptions, \<^verbatim>\<open>fetch\<close> and the backend\<close>

text \<open>
  A thrown JavaScript value is either an \<^verbatim>\<open>Error\<close> object with its message (what
  \<^verbatim>\<open>new Error(msg)\<close> builds, and what \<^verbatim>\<open>fetch\<close> and \<^verbatim>\<open>response.json()\<close> reject with) or
  some other value; the hook tells the two apart with \<^verbatim>\<open>instanceof Error\<close>.
\<close>

datatype exn = JsError string | NonErrorValue

text \<open>
  \<^verbatim>\<open>response.json()\<close> either rejects or yields an object of the declared type
  \<^verbatim>\<open>AddressResponse\<close>. \<^verbatim>\<open>fetch\<close> either rejects or resolves to a response with its \<^verbatim>\<open>ok\<close>
  flag, its status and its body.
\<close>

datatype json_body = Unparsable exn | Parsed AddressResponse

record http_response =
  ok :: bool
  status :: nat
  body :: json_body

datatype fetch_outcome = Rejected exn | Resolved http_response

text \<open>
  The backend behind \<^verbatim>\<open>API_BASE_URL/process-address\<close> is not part of the frontend: it is a
  parameter, a function from the requests it has received so far and the present request to
  the outcome of the \<^verbatim>\<open>fetch\<close>. It may keep state (a cache, say) through its history.
\<close>

type_synonym server = "AddressRequest list \<Rightarrow> AddressRequest \<Rightarrow> fetch_outcome"

text \<open>
  The world a call runs in: \<open>sent\<close> lists the upstream requests issued so far, in order;
  \<open>heard\<close> is the state of whoever listens to the progress callback.
\<close>

record 'l world =
  sent :: "AddressRequest list"
  heard :: 'l

subsection \<open>Asynchronous code that may throw\<close>

text \<open>
  An \<^verbatim>\<open>async\<close> function body is a state transformer whose result is either a thrown
  value (\<^const>\<open>Inl\<close>) or a returned one (\<^const>\<open>Inr\<close>). \<open>bindP\<close> is sequencing (an
  \<^verbatim>\<open>await\<close> or a semicolon), \<open>catchP\<close> is \<^verbatim>\<open>try { ... } catch (error) { ... }\<close>. The
  \<^verbatim>\<open>setTimeout\<close> delays and the \<^verbatim>\<open>console\<close> output change neither the state nor the
  result and are left out.
\<close>

type_synonym ('s, 'a) prog = "'s \<Rightarrow> (exn + 'a) \<times> 's"

definition returnP :: "'a \<Rightarrow> ('s, 'a) prog" where
  "returnP x s = (Inr x, s)"

definition throwP :: "exn \<Rightarrow> ('s, 'a) prog" where
  "throwP e s = (Inl e, s)"

definition bindP :: "('s, 'a) prog \<Rightarrow> ('a \<Rightarrow> ('s, 'b) prog) \<Rightarrow> ('s, 'b) prog" where
  "bindP m k s = (case m s of (Inl e, s') \<Rightarrow> (Inl e, s') | (Inr x, s') \<Rightarrow> k x s')"

definition catchP :: "('s, 'a) prog \<Rightarrow> (exn \<Rightarrow> ('s, 'a) prog) \<Rightarrow> ('s, 'a) prog" where
  "catchP m h s = (case m s of (Inl e, s') \<Rightarrow> h e s' | (Inr x, s') \<Rightarrow> (Inr x, s'))"

text \<open>Decimal digits of a status code, for the template string of the HTTP error.\<close>

fun show_nat :: "nat \<Rightarrow> string" where
  "show_nat n =
     (if n < 10 then [char_of (48 + n)]
      else show_nat (n div 10) @ [char_of (48 + n mod 10)])"

declare show_nat.simps [simp del]

text \<open>
  \<^verbatim>\<open>fetch(API_BASE_URL + '/process-address', {method: 'POST', body: {address, radius}})\<close>:
  the request is issued (and recorded) whether the promise then resolves or rejects.
\<close>

definition fetch_process_address :: "server \<Rightarrow> AddressRequest \<Rightarrow> ('l world, http_response) prog" where
  "fetch_process_address srv rq w =
     (case srv (sent w) rq of
        Rejected e \<Rightarrow> (Inl e, w\<lparr>sent := sent w @ [rq]\<rparr>)
      | Resolved response \<Rightarrow> (Inr response, w\<lparr>sent := sent w @ [rq]\<rparr>))"

definition json :: "http_response \<Rightarrow> ('s, AddressResponse) prog" where
  "json response = (case body response of Unparsable e \<Rightarrow> throwP e | Parsed r \<Rightarrow> returnP r)"

text \<open>A default parameter \<^verbatim>\<open>radius: number = 1000\<close>: \<^const>\<open>None\<close> is an omitted argument.\<close>

definition radius_or_default :: "int option \<Rightarrow> int" where
  "radius_or_default radius = (case radius of None \<Rightarrow> 1000 | Some r \<Rightarrow> r)"

section \<open>\<^verbatim>\<open>AddressService\<close>\<close>

text \<open>
  \<^verbatim>\<open>AddressService.processAddress\<close> (api.ts, lines 39 to 68). The test
  \<^verbatim>\<open>!result.success && result.error\<close> holds when \<open>success\<close> is false and the error field
  is a non-empty string (a missing field and the empty string are falsy).
\<close>

definition processAddress :: "server \<Rightarrow> string \<Rightarrow> int option \<Rightarrow> ('l world, AddressResponse) prog" where
  "processAddress srv address radius =
     catchP
       (bindP (fetch_process_address srv
                 \<lparr>req_address = address, req_radius = radius_or_default radius\<rparr>) (\<lambda>response.
        bindP (if \<not> ok response
               then throwP (JsError (''HTTP error! status: '' @ show_nat (status response)))
               else returnP ()) (\<lambda>_.
        bindP (json response) (\<lambda>result.
        bindP (case error result of
                 Some msg \<Rightarrow>
                   if \<not> success result \<and> msg \<noteq> [] then throwP (JsError msg) else returnP ()
               | None \<Rightarrow> returnP ()) (\<lambda>_.
        returnP result)))))
       (\<lambda>error. throwP error)"

text \<open>
  The second argument of the progress callback. The source passes \<^verbatim>\<open>{ message }\<close>,
  \<^verbatim>\<open>{ message, data: result }\<close> or \<^verbatim>\<open>{ message, error }\<close>; the key \<^verbatim>\<open>error\<close> is \<open>ev_error\<close>.
\<close>

record payload =
  message :: string
  data :: "AddressResponse option"
  ev_error :: "exn option"

text \<open>
  A progress callback \<^verbatim>\<open>(step: string, data?: any) => void\<close> changes the state of its
  owner and, like any JavaScript function, may throw instead of returning.
\<close>

type_synonym 'l listener = "string \<Rightarrow> payload \<Rightarrow> 'l \<Rightarrow> (exn + unit) \<times> 'l"

text \<open>\<^verbatim>\<open>onProgress?.(step, data)\<close>: nothing happens when no callback was passed.\<close>

definition call_onProgress :: "'l listener option \<Rightarrow> string \<Rightarrow> payload \<Rightarrow> ('l world, unit) prog" where
  "call_onProgress onProgress step d w =
     (case onProgress of
        None \<Rightarrow> (Inr (), w)
      | Some f \<Rightarrow> (case f step d (heard w) of (r, l) \<Rightarrow> (r, w\<lparr>heard := l\<rparr>)))"

text \<open>\<^verbatim>\<open>AddressService.processAddressWithProgress\<close> (api.ts, lines 70 to 126).\<close>

definition processAddressWithProgress ::
  "server \<Rightarrow> string \<Rightarrow> int option \<Rightarrow> 'l listener option \<Rightarrow> ('l world, AddressResponse) prog" where
  "processAddressWithProgress srv address radius onProgress =
     catchP
       (bindP (call_onProgress onProgress ''geocoding''
                 \<lparr>message = ''Finding coordinates...'', data = None, ev_error = None\<rparr>) (\<lambda>_.
        bindP (call_onProgress onProgress ''amenities''
                 \<lparr>message = ''Searching for amenities...'', data = None, ev_error = None\<rparr>) (\<lambda>_.
        bindP (call_onProgress onProgress ''categorizing''
                 \<lparr>message = ''Categorizing amenities...'', data = None, ev_error = None\<rparr>) (\<lambda>_.
        bindP (call_onProgress onProgress ''analyzing''
                 \<lparr>message = ''Generating AI analysis...'', data = None, ev_error = None\<rparr>) (\<lambda>_.
        bindP (fetch_process_address srv
                 \<lparr>req_address = address, req_radius = radius_or_default radius\<rparr>) (\<lambda>response.
        bindP (if \<not> ok response
               then throwP (JsError (''HTTP error! status: '' @ show_nat (status response)))
               else returnP ()) (\<lambda>_.
        bindP (json response) (\<lambda>result.
        bindP (case error result of
                 Some msg \<Rightarrow>
                   if \<not> success result \<and> msg \<noteq> [] then throwP (JsError msg) else returnP ()
               | None \<Rightarrow> returnP ()) (\<lambda>_.
        bindP (call_onProgress onProgress ''complete''
                 \<lparr>message = ''Complete!'', data = Some result, ev_error = None\<rparr>) (\<lambda>_.
        returnP result))))))))))
       (\<lambda>error.
        bindP (call_onProgress onProgress ''error''
                 \<lparr>message = ''Error occurred'', data = None, ev_error = Some error\<rparr>) (\<lambda>_.
        throwP error))"

text \<open>
  The listener that writes down what it is called with: the events a run publishes are
  what it has heard.
\<close>

definition recorder :: "(string \<times> payload) list listener" where
  "recorder step d evs = (Inr (), evs @ [(step, d)])"

section \<open>The hook \<^verbatim>\<open>useAddressProcessor\<close>\<close>

record ProcessingState =
  loading :: bool
  st_result :: "AddressResponse option"
  st_error :: "string option"
  currentStep :: string
  progressMessage :: string

text \<open>The argument of \<^verbatim>\<open>useState\<close>: the state before any update.\<close>

definition initialState :: ProcessingState where
  "initialState =
     \<lparr>loading = False, st_result = None, st_error = None, currentStep = [], progressMessage = []\<rparr>"

text \<open>
  The hook's state is kept with its history: the list of the states \<^verbatim>\<open>setState\<close> has
  produced, the newest first. The present state is the head of the list, or the initial
  state when nothing was set yet; \<^verbatim>\<open>setState(prev => ...)\<close> applies the update to it.
\<close>

definition current :: "ProcessingState list \<Rightarrow> ProcessingState" where
  "current h = (case h of [] \<Rightarrow> initialState | s # _ \<Rightarrow> s)"

definition set_state :: "(ProcessingState \<Rightarrow> ProcessingState) \<Rightarrow> ProcessingState list \<Rightarrow> ProcessingState list" where
  "set_state upd h = upd (current h) # h"

definition setState :: "(ProcessingState \<Rightarrow> ProcessingState) \<Rightarrow> (ProcessingState list world, unit) prog" where
  "setState upd w = (Inr (), w\<lparr>heard := set_state upd (heard w)\<rparr>)"

text \<open>
  The callback the hook passes to \<^verbatim>\<open>processAddressWithProgress\<close> (lines 181 to 188):
  \<^verbatim>\<open>setState(prev => ({...prev, currentStep: step, progressMessage: data?.message || 'Processing...'}))\<close>.
  It returns normally.
\<close>

definition progress_update :: "ProcessingState list listener" where
  "progress_update step d h =
     (Inr (),
      set_state
        (\<lambda>prev. prev\<lparr>currentStep := step,
                       progressMessage := (if message d = [] then ''Processing...''
                                           else message d)\<rparr>) h)"

text \<open>
  \<^verbatim>\<open>processAddress\<close> of the hook (lines 168 to 207). The message of the failure state is
  \<^verbatim>\<open>error instanceof Error ? error.message : 'An error occurred'\<close>.
\<close>

definition useAddressProcessor_processAddress ::
  "server \<Rightarrow> string \<Rightarrow> int option \<Rightarrow> (ProcessingState list world, unit) prog" where
  "useAddressProcessor_processAddress srv address radius =
     bindP (setState (\<lambda>_.
              \<lparr>loading = True, st_result = None, st_error = None,
               currentStep = ''starting'', progressMessage = ''Starting analysis...''\<rparr>)) (\<lambda>_.
     catchP
       (bindP (processAddressWithProgress srv address (Some (radius_or_default radius))
                 (Some progress_update)) (\<lambda>result.
        setState (\<lambda>_.
          \<lparr>loading = False, st_result = Some result, st_error = None,
           currentStep = ''complete'', progressMessage = ''Analysis complete!''\<rparr>)))
       (\<lambda>error.
        setState (\<lambda>_.
          \<lparr>loading = False, st_result = None,
           st_error = Some (case error of JsError m \<Rightarrow> m | NonErrorValue \<Rightarrow> ''An error occurred''),
           currentStep = ''error'', progressMessage = ''Error occurred''\<rparr>)))"

text \<open>Calls of the hook's \<^verbatim>\<open>processAddress\<close> one after the other, each awaited.\<close>

fun run_calls ::
  "server \<Rightarrow> (string \<times> int option) list \<Rightarrow> ProcessingState list world \<Rightarrow> ProcessingState list world" where
  "run_calls srv [] w = w"
| "run_calls srv ((address, radius) # calls) w =
     run_calls srv calls (snd (useAddressProcessor_processAddress srv address radius w))"

text \<open>
  The loader of the page maps \<^verbatim>\<open>currentStep\<close> to the index of the step it highlights
  (page, lines 237 to 243).
\<close>

definition loader_currentStep :: "string \<Rightarrow> nat" where
  "loader_currentStep step =
     (if step = ''geocoding'' then 0
      else if step = ''amenities'' then 1
      else if step = ''categorizing'' then 2
      else if step = ''analyzing'' then 3
      else if step = ''complete'' then 4 else 0)"

section \<open>\<^verbatim>\<open>components/ui/amenities-bento-grid.tsx\<close>\<close>

subsection \<open>Pagination of an \<^verbatim>\<open>AmenityCard\<close>\<close>

definition itemsPerPage :: nat where
  "itemsPerPage = 8"

text \<open>\<^verbatim>\<open>Math.ceil(items.length / itemsPerPage)\<close>.\<close>

definition totalPages :: "'a list \<Rightarrow> int" where
  "totalPages items = \<lceil>real (length items) / real itemsPerPage\<rceil>"

text \<open>
  \<^verbatim>\<open>Array.prototype.slice(start, end)\<close> on integers: a negative index counts from the end of
  the array, both indices are cut to the array, and an empty range gives the empty array.
\<close>

definition js_slice :: "'a list \<Rightarrow> int \<Rightarrow> int \<Rightarrow> 'a list" where
  "js_slice xs start fin =
     (let len = int (length xs);
          k = (if start < 0 then max (len + start) 0 else min start len);
          final = (if fin < 0 then max (len + fin) 0 else min fin len)
      in take (nat (final - k)) (drop (nat k) xs))"

definition currentItems :: "'a list \<Rightarrow> int \<Rightarrow> 'a list" where
  "currentItems items currentPage =
     js_slice items (currentPage * int itemsPerPage) ((currentPage + 1) * int itemsPerPage)"

definition goToPrevious :: "int \<Rightarrow> int" where
  "goToPrevious prev = max 0 (prev - 1)"

definition goToNext :: "'a list \<Rightarrow> int \<Rightarrow> int" where
  "goToNext items prev = min (totalPages items - 1) (prev + 1)"

text \<open>
  A click on one of the two buttons. The buttons are rendered only when
  \<^verbatim>\<open>totalPages > 1\<close>; Previous is disabled on page 0 and Next on the last page, and a
  button that is absent or disabled does not run its handler.
\<close>

datatype button = Previous | Next

definition click :: "'a list \<Rightarrow> int \<Rightarrow> button \<Rightarrow> int" where
  "click items currentPage b =
     (if totalPages items > 1
      then (case b of
              Previous \<Rightarrow> if currentPage = 0 then currentPage else goToPrevious currentPage
            | Next \<Rightarrow>
                if currentPage = totalPages items - 1 then currentPage
                else goToNext items currentPage)
      else currentPage)"

text \<open>The handler of a button run as it stands, whether or not the button can be clicked.\<close>

definition press :: "'a list \<Rightarrow> int \<Rightarrow> button \<Rightarrow> int" where
  "press items currentPage b =
     (case b of Previous \<Rightarrow> goToPrevious currentPage | Next \<Rightarrow> goToNext items currentPage)"

subsection \<open>Category tables\<close>








subsection \<open>\<^verbatim>\<open>AmenitiesBentoGrid\<close>\<close>

text \<open>
  The element tree the function \<^verbatim>\<open>AmenitiesBentoGrid\<close> returns: the notice "No amenities
  found in the specified radius." or a grid with one item per category that has items, in
  the order of \<^verbatim>\<open>Object.entries\<close>. A card is the \<^verbatim>\<open>header\<close> of its grid item, an
  \<^verbatim>\<open>AmenityCard\<close> element with its category and items. What React then makes of the tree is
  not part of the model: a card whose icon is not a string (a category named like a member
  of \<^verbatim>\<open>Object.prototype\<close>, see above) is returned like any other, and rendering it can fail.
\<close>

record card =
  header_category :: string
  header_items :: "Amenity list"
  className :: string

datatype grid_view = NoAmenitiesFound | BentoGrid "card list"

definition AmenitiesBentoGrid :: "(string \<times> Amenity list) list \<Rightarrow> grid_view" where
  "AmenitiesBentoGrid amenities_by_category =
     (let categories = filter (\<lambda>(_, its). length its > 0) amenities_by_category
      in if length categories = 0 then NoAmenitiesFound
         else BentoGrid
                (map (\<lambda>(cat, its).
                        \<lparr>header_category = cat, header_items = its,
                         className = (if length its > 10 then ''md:col-span-2''
                                      else ''md:col-span-1'')\<rparr>)
                   categories))"

section \<open>The pipeline of the specification\<close>

text \<open>
  The orchestrator, its cache and its three upstream clients are backend code that is not
  among the sources. What the claim about an empty search needs of them is modelled here
  from the specification (sections 3, 4.2 and 4.3).
\<close>

text \<open>Modelled from the spec: the POI of the data model, \<open>{name, category_raw, coordinates}\<close>.\<close>

record POI =
  poi_name :: string
  category_raw :: string
  poi_coordinates :: LatLon

text \<open>
  Modelled from the spec: the Pipeline Result
  \<open>{coordinates, categorized, summary, radius_used, cache_hit}\<close>; the categorized result maps
  a category to an ordered list of POI.
\<close>

record PipelineResult =
  pr_coordinates :: Coordinates
  categorized :: "(string \<times> POI list) list"
  summary :: string
  pr_radius_used :: int
  cache_hit :: bool

text \<open>
  Modelled from the spec: the two terminal failures of the orchestrator, and the stages of a
  progress event.
\<close>

datatype PipelineError = AddressNotResolvable | UpstreamUnavailable

datatype stage = Geocoding | Searching | Categorizing | Summarizing | Complete | Failed

text \<open>
  Modelled from the spec: what each upstream client hands to the orchestrator once its own
  retries are over (section 4.2).
\<close>

datatype geocode_result = Found Coordinates | NotFound | GeocodeRateLimited | GeocodeUnavailable

datatype search_result = POIs "POI list" | SearchRateLimited | SearchUnavailable

datatype classify_result = Classified "(string \<times> POI list) list" | ClassifyUnavailable

datatype summarize_result = Summary string | SummarizeUnavailable

text \<open>
  Modelled from the spec: the collaborators the orchestrator is built with. The three
  clients, the key of a query (the normalized address combined with the radius), the rule
  of the fallback categorization (from the raw category of a POI to a category) and the
  fixed summary of the fallback are parameters: the specification leaves the rule, the
  summary text and the providers open.
\<close>

record collaborators =
  resolve :: "string \<Rightarrow> geocode_result"
  search :: "Coordinates \<Rightarrow> int \<Rightarrow> search_result"
  classify :: "POI list \<Rightarrow> classify_result"
  summarize :: "Coordinates \<Rightarrow> (string \<times> POI list) list \<Rightarrow> summarize_result"
  fingerprint :: "string \<Rightarrow> int \<Rightarrow> string"
  category_rule :: "string \<Rightarrow> string"
  fallback_summary :: string

text \<open>
  Modelled from the spec: the state of the orchestrator, the live entries of the Cache Store
  (an entry past its time-to-live is not in the map) and the progress events published so
  far.
\<close>

record pipeline =
  cache :: "string \<rightharpoonup> PipelineResult"
  events :: "stage list"

text \<open>
  Modelled from the spec: the radius of a query lies in \<open>[100, 10000]\<close>. The specification
  says "clamped/rejected"; clamping is modelled.
\<close>

definition clamp_radius :: "int \<Rightarrow> int" where
  "clamp_radius radius_meters = max 100 (min 10000 radius_meters)"

text \<open>
  Modelled from the spec: the rule-based categorization of step 4, used when
  \<open>classify\<close> fails. Every POI goes to the category the rule gives for its raw category, or
  to Other when that is not one of the eight; a category without POI gets no entry.
\<close>

definition fallback_category :: "(string \<Rightarrow> string) \<Rightarrow> POI \<Rightarrow> string" where
  "fallback_category rule p =
     (if rule (category_raw p) \<in> set
           [''Education'', ''Healthcare'', ''Dining'', ''Banking'', ''Shopping'', ''Recreation'',
            ''Transportation'', ''Other'']
      then rule (category_raw p) else ''Other'')"

definition fallback_categorize :: "(string \<Rightarrow> string) \<Rightarrow> POI list \<Rightarrow> (string \<times> POI list) list" where
  "fallback_categorize rule pois =
     filter (\<lambda>(c, ps). ps \<noteq> [])
       (map (\<lambda>c. (c, filter (\<lambda>p. fallback_category rule p = c) pois))
          [''Education'', ''Healthcare'', ''Dining'', ''Banking'', ''Shopping'', ''Recreation'',
           ''Transportation'', ''Other''])"

text \<open>
  Modelled from the spec: \<open>Orchestrator.run\<close>, the algorithm of section 4.3. Step 1 answers
  from the cache with the single event \<open>complete\<close>. Step 2 aborts on \<open>NotFound\<close> and on an
  unavailable geocoder. Step 3 aborts on an unavailable search and goes on with any list of
  POI, the empty one too. Steps 4 and 5 fall back when the client fails. Step 6 commits the
  result to the cache and publishes \<open>complete\<close>; a run that aborts publishes \<open>failed\<close> last
  and commits nothing.
\<close>

definition run ::
  "collaborators \<Rightarrow> string \<Rightarrow> int \<Rightarrow> pipeline \<Rightarrow> (PipelineError + PipelineResult) \<times> pipeline" where
  "run c address radius_meters p =
     (let radius = clamp_radius radius_meters;
          key = fingerprint c address radius
      in case cache p key of
           Some hit \<Rightarrow> (Inr (hit\<lparr>cache_hit := True\<rparr>), p\<lparr>events := events p @ [Complete]\<rparr>)
         | None \<Rightarrow>
             (case resolve c address of
                Found coords \<Rightarrow>
                  (case search c coords radius of
                     POIs pois \<Rightarrow>
                       (let cats = (case classify c pois of
                                      Classified cs \<Rightarrow> cs
                                    | ClassifyUnavailable \<Rightarrow>
                                        fallback_categorize (category_rule c) pois);
                            summ = (case summarize c coords cats of
                                      Summary t \<Rightarrow> t
                                    | SummarizeUnavailable \<Rightarrow> fallback_summary c);
                            r = \<lparr>pr_coordinates = coords, categorized = cats, summary = summ,
                                 pr_radius_used = radius, cache_hit = False\<rparr>
                        in (Inr r,
                            p\<lparr>cache := (cache p)(key \<mapsto> r),
                              events := events p @
                                [Geocoding, Searching, Categorizing, Summarizing, Complete]\<rparr>))
                   | _ \<Rightarrow>
                       (Inl UpstreamUnavailable,
                        p\<lparr>events := events p @ [Geocoding, Searching, Failed]\<rparr>))
              | NotFound \<Rightarrow>
                  (Inl AddressNotResolvable, p\<lparr>events := events p @ [Geocoding, Failed]\<rparr>)
              | _ \<Rightarrow>
                  (Inl UpstreamUnavailable, p\<lparr>events := events p @ [Geocoding, Failed]\<rparr>)))"

text \<open>
  Modelled from the spec: the invariant of a categorized result, "every POI maps to exactly
  one category": the lists of the categories hold each POI of the search as often as the
  search returned it.
\<close>

definition categorizes :: "(string \<times> POI list) list \<Rightarrow> POI list \<Rightarrow> bool" where
  "categorizes cats pois =
     (\<forall>p. count_list (concat (map snd cats)) p = count_list pois p)"


section \<open>Vocabulary of the properties\<close>

text \<open>The request that a call with the given arguments posts.\<close>

definition request :: "string \<Rightarrow> int option \<Rightarrow> AddressRequest" where
  "request address radius = \<lparr>req_address = address, req_radius = radius_or_default radius\<rparr>"

text \<open>
  What lines 52 to 63 (and again 103 to 112) make of the outcome of the \<^verbatim>\<open>fetch\<close>: the
  value thrown or the value returned.
\<close>

definition checked :: "fetch_outcome \<Rightarrow> exn + AddressResponse" where
  "checked out =
     (case out of
        Rejected e \<Rightarrow> Inl e
      | Resolved response \<Rightarrow>
          if \<not> ok response
          then Inl (JsError (''HTTP error! status: '' @ show_nat (status response)))
          else (case body response of
                  Unparsable e \<Rightarrow> Inl e
                | Parsed r \<Rightarrow>
                    (case error r of
                       Some msg \<Rightarrow>
                         if \<not> success r \<and> msg \<noteq> [] then Inl (JsError msg) else Inr r
                     | None \<Rightarrow> Inr r)))"

text \<open>The four stage events of a run, and the event that ends it.\<close>

definition stage_events :: "(string \<times> payload) list" where
  "stage_events =
     [(''geocoding'', \<lparr>message = ''Finding coordinates...'', data = None, ev_error = None\<rparr>),
      (''amenities'', \<lparr>message = ''Searching for amenities...'', data = None, ev_error = None\<rparr>),
      (''categorizing'', \<lparr>message = ''Categorizing amenities...'', data = None, ev_error = None\<rparr>),
      (''analyzing'', \<lparr>message = ''Generating AI analysis...'', data = None, ev_error = None\<rparr>)]"

definition terminal_event :: "exn + AddressResponse \<Rightarrow> string \<times> payload" where
  "terminal_event r =
     (case r of
        Inr res \<Rightarrow> (''complete'', \<lparr>message = ''Complete!'', data = Some res, ev_error = None\<rparr>)
      | Inl e \<Rightarrow> (''error'', \<lparr>message = ''Error occurred'', data = None, ev_error = Some e\<rparr>))"

text \<open>The state of a listener after it was called with a list of events, in order.\<close>

definition deliver :: "'l listener \<Rightarrow> 'l \<Rightarrow> (string \<times> payload) list \<Rightarrow> 'l" where
  "deliver f l evs = foldl (\<lambda>l (step, d). snd (f step d l)) l evs"

text \<open>
  A terminal progress event is one whose step is \<^verbatim>\<open>complete\<close>, \<^verbatim>\<open>failed\<close> or \<^verbatim>\<open>error\<close>; a list
  of published steps is well ended when exactly one of them is terminal and it is the last.
\<close>

definition terminal :: "string \<Rightarrow> bool" where
  "terminal step = (step = ''complete'' \<or> step = ''failed'' \<or> step = ''error'')"

definition one_terminal_last :: "string list \<Rightarrow> bool" where
  "one_terminal_last steps =
     (length (filter terminal steps) = 1 \<and> steps \<noteq> [] \<and> terminal (last steps))"

text \<open>
  The steps a run publishes: what a recording listener hears during a call made when the
  backend has already received the requests of \<open>history\<close>.
\<close>

definition published :: "server \<Rightarrow> string \<Rightarrow> int option \<Rightarrow> AddressRequest list \<Rightarrow> string list" where
  "published srv address radius history =
     map fst (heard (snd (processAddressWithProgress srv address radius (Some recorder)
                            \<lparr>sent = history, heard = []\<rparr>)))"

text \<open>The stage names of the specification, and the step names the code uses.\<close>

definition spec_stages :: "string list" where
  "spec_stages =
     [''geocoding'', ''searching'', ''categorizing'', ''summarizing'', ''complete'', ''failed'']"

definition in_spec_stages :: "string \<Rightarrow> bool" where
  "in_spec_stages step = (step \<in> set spec_stages)"

definition code_steps :: "string list" where
  "code_steps =
     [''geocoding'', ''amenities'', ''categorizing'', ''analyzing'', ''complete'', ''error'']"

definition in_code_steps :: "string \<Rightarrow> bool" where
  "in_code_steps step = (step \<in> set code_steps)"

text \<open>
  Two calls with the same arguments, one after the other, each with a fresh recording
  listener; the second call counts as served from a cache when it publishes the single
  step \<^verbatim>\<open>complete\<close> and issues no upstream request.
\<close>

definition first_call ::
  "server \<Rightarrow> string \<Rightarrow> int option \<Rightarrow> (exn + AddressResponse) \<times> (string \<times> payload) list world" where
  "first_call srv address radius =
     processAddressWithProgress srv address radius (Some recorder) \<lparr>sent = [], heard = []\<rparr>"

definition second_call ::
  "server \<Rightarrow> string \<Rightarrow> int option \<Rightarrow> (exn + AddressResponse) \<times> (string \<times> payload) list world" where
  "second_call srv address radius =
     processAddressWithProgress srv address radius (Some recorder)
       ((snd (first_call srv address radius))\<lparr>heard := []\<rparr>)"

definition served_from_cache :: "server \<Rightarrow> string \<Rightarrow> int option \<Rightarrow> bool" where
  "served_from_cache srv address radius =
     (map fst (heard (snd (second_call srv address radius))) = [''complete''] \<and>
      sent (snd (second_call srv address radius)) = sent (snd (first_call srv address radius)))"

text \<open>The bounds the specification puts on a transmitted radius.\<close>

definition radius_in_bounds :: "AddressRequest \<Rightarrow> bool" where
  "radius_in_bounds rq = (100 \<le> req_radius rq \<and> req_radius rq \<le> 10000)"





text \<open>
  The consistency of a state of the hook: \<open>result\<close> and \<open>error\<close> are not both set, and while
  \<open>loading\<close> neither is.
\<close>

definition state_ok :: "ProcessingState \<Rightarrow> bool" where
  "state_ok s =
     (\<not> (st_result s \<noteq> None \<and> st_error s \<noteq> None) \<and>
      (loading s \<longrightarrow> st_result s = None \<and> st_error s = None))"

text \<open>Programs that issue no request, and programs that issue at most the given one.\<close>

definition keeps :: "('l world, 'a) prog \<Rightarrow> bool" where
  "keeps m = (\<forall>w. sent (snd (m w)) = sent w)"

definition may_send :: "AddressRequest \<Rightarrow> ('l world, 'a) prog \<Rightarrow> bool" where
  "may_send rq m = (\<forall>w. sent (snd (m w)) = sent w \<or> sent (snd (m w)) = sent w @ [rq])"

text \<open>Example backends and inputs.\<close>

definition echo_server :: server where
  "echo_server history rq =
     Resolved \<lparr>ok = True, status = 200,
       body = Parsed \<lparr>success = True, resp_address = req_address rq, coordinates = None,
                      amenities = [], categorized_amenities = Some [], result = None,
                      error = None, radius_used = req_radius rq\<rparr>\<rparr>"

definition silent_failure :: AddressResponse where
  "silent_failure =
     \<lparr>success = False, resp_address = ''Nowhere 1'', coordinates = None, amenities = [],
      categorized_amenities = None, result = None, error = None, radius_used = 1000\<rparr>"

definition silent_failure_server :: server where
  "silent_failure_server history rq =
     Resolved \<lparr>ok = True, status = 200, body = Parsed silent_failure\<rparr>"

definition not_found_server :: server where
  "not_found_server history rq =
     Resolved \<lparr>ok = True, status = 200,
       body = Parsed \<lparr>success = False, resp_address = req_address rq, coordinates = None,
                      amenities = [], categorized_amenities = None, result = None,
                      error = Some ''Could not geocode address'', radius_used = req_radius rq\<rparr>\<rparr>"

definition unavailable_server :: server where
  "unavailable_server history rq =
     Resolved \<lparr>ok = False, status = 503, body = Unparsable (JsError ''Unexpected token'')\<rparr>"


text \<open>A listener that writes the event down and then throws when the step is \<^verbatim>\<open>complete\<close>.\<close>

definition fussy :: "(string \<times> payload) list listener" where
  "fussy step d evs =
     (if step = ''complete'' then Inl (JsError ''listener failed'') else Inr (),
      evs @ [(step, d)])"

lemmas prog_defs = returnP_def throwP_def bindP_def catchP_def

section \<open>What a call of the service does\<close>

lemma processAddress_eq:
  "processAddress srv address radius w =
     (checked (srv (sent w) (request address radius)),
      w\<lparr>sent := sent w @ [request address radius]\<rparr>)"
  by (simp add: processAddress_def fetch_process_address_def json_def checked_def prog_defs
        request_def
      split: fetch_outcome.split json_body.split option.split)

lemma call_onProgress_quiet:
  assumes "\<And>step d l. fst (f step d l) = Inr ()"
  shows "call_onProgress (Some f) step d w = (Inr (), w\<lparr>heard := snd (f step d (heard w))\<rparr>)"
proof -
  obtain r l' where eq: "f step d (heard w) = (r, l')"
    by (cases "f step d (heard w)")
  with assms [of step d "heard w"] have "r = Inr ()"
    by simp
  with eq show ?thesis
    by (simp add: call_onProgress_def)
qed

lemma processAddressWithProgress_quiet:
  assumes quiet: "\<And>step d l. fst (f step d l) = Inr ()"
  shows "processAddressWithProgress srv address radius (Some f) w =
     (checked (srv (sent w) (request address radius)),
      w\<lparr>sent := sent w @ [request address radius],
        heard := deliver f (heard w)
                   (stage_events @ [terminal_event (checked (srv (sent w) (request address radius)))])\<rparr>)"
  by (simp add: processAddressWithProgress_def call_onProgress_quiet [OF quiet]
        fetch_process_address_def json_def checked_def prog_defs request_def
        stage_events_def terminal_event_def deliver_def
      split: fetch_outcome.split json_body.split option.split)

lemma processAddressWithProgress_unheard:
  "processAddressWithProgress srv address radius None w = processAddress srv address radius w"
  by (simp add: processAddressWithProgress_def processAddress_def call_onProgress_def
        fetch_process_address_def json_def prog_defs
      split: fetch_outcome.split json_body.split option.split)

lemma deliver_recorder: "deliver recorder l evs = l @ evs"
  unfolding deliver_def
  by (induction evs arbitrary: l) (auto simp: recorder_def)

lemma checked_Inr_iff:
  "checked out = Inr r \<longleftrightarrow>
     (\<exists>st. out = Resolved \<lparr>ok = True, status = st, body = Parsed r\<rparr>) \<and>
     \<not> (\<not> success r \<and> error r \<noteq> None \<and> error r \<noteq> Some [])"
proof (cases out)
  case (Rejected e)
  then show ?thesis
    by (simp add: checked_def)
next
  case (Resolved response)
  then show ?thesis
    by (cases response)
       (auto simp: checked_def split: json_body.splits option.splits if_splits)
qed

lemma recorder_quiet: "fst (recorder step d l) = Inr ()"
  by (simp add: recorder_def)

lemma processAddressWithProgress_recorder:
  "processAddressWithProgress srv address radius (Some recorder) w =
     (checked (srv (sent w) (request address radius)),
      w\<lparr>sent := sent w @ [request address radius],
        heard := heard w @ stage_events
                   @ [terminal_event (checked (srv (sent w) (request address radius)))]\<rparr>)"
  by (simp add: processAddressWithProgress_quiet [OF recorder_quiet] deliver_recorder)

lemma steps_of_stage_events [simp]:
  "map fst stage_events = [''geocoding'', ''amenities'', ''categorizing'', ''analyzing'']"
  by (simp add: stage_events_def)

lemma step_of_terminal_event [simp]:
  "fst (terminal_event r) = (case r of Inr _ \<Rightarrow> ''complete'' | Inl _ \<Rightarrow> ''error'')"
  by (simp add: terminal_event_def split: sum.split)

lemma published_eq:
  "published srv address radius history =
     [''geocoding'', ''amenities'', ''categorizing'', ''analyzing'',
      (case checked (srv history (request address radius)) of
         Inr _ \<Rightarrow> ''complete'' | Inl _ \<Rightarrow> ''error'')]"
  by (simp add: published_def processAddressWithProgress_recorder)

lemma one_terminal_last_run:
  "one_terminal_last [''geocoding'', ''amenities'', ''categorizing'', ''analyzing'',
      (case r of Inr _ \<Rightarrow> ''complete'' | Inl _ \<Rightarrow> ''error'')]"
  by (cases r) (simp_all add: one_terminal_last_def terminal_def)

subsection \<open>Requests issued, whatever the listener does\<close>

lemma keeps_returnP: "keeps (returnP x)"
  by (simp add: keeps_def returnP_def)

lemma keeps_throwP: "keeps (throwP e)"
  by (simp add: keeps_def throwP_def)

lemma keeps_call_onProgress: "keeps (call_onProgress onProgress step d)"
  by (simp add: keeps_def call_onProgress_def split: option.split prod.split)

lemma keeps_json: "keeps (json response)"
  by (simp add: json_def keeps_returnP keeps_throwP split: json_body.split)

lemma keeps_bindP: "keeps m \<Longrightarrow> (\<And>x. keeps (k x)) \<Longrightarrow> keeps (bindP m k)"
  unfolding keeps_def bindP_def
  by (auto split: prod.split sum.split) (metis snd_conv)+

lemma may_send_bindP: "keeps m \<Longrightarrow> (\<And>x. may_send rq (k x)) \<Longrightarrow> may_send rq (bindP m k)"
  unfolding keeps_def may_send_def bindP_def
  by (auto split: prod.split sum.split) (metis snd_conv)+

lemma may_send_fetch:
  "(\<And>x. keeps (k x)) \<Longrightarrow> may_send rq (bindP (fetch_process_address srv rq) k)"
  unfolding keeps_def may_send_def bindP_def fetch_process_address_def
  by (auto split: prod.split sum.split fetch_outcome.split)

lemma may_send_catchP: "may_send rq m \<Longrightarrow> (\<And>e. keeps (h e)) \<Longrightarrow> may_send rq (catchP m h)"
  unfolding keeps_def may_send_def catchP_def
  by (auto split: prod.split sum.split) (metis snd_conv)+

lemma processAddressWithProgress_may_send:
  "may_send (request address radius) (processAddressWithProgress srv address radius onProgress)"
  unfolding processAddressWithProgress_def request_def
  by (intro may_send_catchP may_send_fetch may_send_bindP keeps_bindP keeps_call_onProgress
        keeps_json keeps_returnP keeps_throwP)
     (auto intro: keeps_returnP keeps_throwP split: option.split)

section \<open>What a call of the hook does\<close>

lemma request_default [simp]:
  "request address (Some (radius_or_default radius)) = request address radius"
  by (simp add: request_def radius_or_default_def)

lemma progress_update_quiet: "fst (progress_update step d l) = Inr ()"
  by (simp add: progress_update_def)

lemma useAddressProcessor_processAddress_eq:
  "useAddressProcessor_processAddress srv address radius w =
     (Inr (),
      w\<lparr>sent := sent w @ [request address radius],
        heard :=
          (case checked (srv (sent w) (request address radius)) of
             Inr res \<Rightarrow>
               \<lparr>loading = False, st_result = Some res, st_error = None,
                currentStep = ''complete'', progressMessage = ''Analysis complete!''\<rparr>
           | Inl e \<Rightarrow>
               \<lparr>loading = False, st_result = None,
                st_error = Some (case e of JsError m \<Rightarrow> m
                                 | NonErrorValue \<Rightarrow> ''An error occurred''),
                currentStep = ''error'', progressMessage = ''Error occurred''\<rparr>)
          # deliver progress_update
              (\<lparr>loading = True, st_result = None, st_error = None,
                currentStep = ''starting'', progressMessage = ''Starting analysis...''\<rparr>
               # heard w)
              (stage_events
                 @ [terminal_event (checked (srv (sent w) (request address radius)))])\<rparr>)"
  by (simp add: useAddressProcessor_processAddress_def setState_def set_state_def prog_defs
        processAddressWithProgress_quiet [OF progress_update_quiet]
      split: sum.split)

lemma state_ok_current: "list_all state_ok h \<Longrightarrow> state_ok (current h)"
  by (cases h) (simp_all add: current_def initialState_def state_ok_def)

lemma progress_update_ok:
  "list_all state_ok h \<Longrightarrow> list_all state_ok (snd (progress_update step d h))"
  using state_ok_current [of h]
  by (simp add: progress_update_def set_state_def state_ok_def)

lemma deliver_progress_update_ok:
  "list_all state_ok h \<Longrightarrow> list_all state_ok (deliver progress_update h evs)"
proof (induction evs arbitrary: h)
  case Nil
  then show ?case
    by (simp add: deliver_def)
next
  case (Cons ev evs)
  obtain step d where ev: "ev = (step, d)"
    by (cases ev)
  have "deliver progress_update h (ev # evs) =
          deliver progress_update (snd (progress_update step d h)) evs"
    by (simp add: deliver_def ev)
  with Cons.IH [OF progress_update_ok [OF Cons.prems]] show ?case
    by simp
qed

lemma useAddressProcessor_processAddress_ok:
  assumes "list_all state_ok (heard w)"
  shows "list_all state_ok (heard (snd (useAddressProcessor_processAddress srv address radius w)))"
proof -
  let ?starting = "\<lparr>loading = True, st_result = None, st_error = None,
                    currentStep = ''starting'', progressMessage = ''Starting analysis...''\<rparr>"
  have "list_all state_ok (?starting # heard w)"
    using assms by (simp add: state_ok_def)
  then have "list_all state_ok (deliver progress_update (?starting # heard w) evs)" for evs
    by (rule deliver_progress_update_ok)
  then show ?thesis
    by (simp add: useAddressProcessor_processAddress_eq state_ok_def split: sum.split)
qed

lemma run_calls_ok:
  "list_all state_ok (heard w) \<Longrightarrow> list_all state_ok (heard (run_calls srv calls w))"
proof (induction calls arbitrary: w)
  case Nil
  then show ?case
    by simp
next
  case (Cons c calls)
  obtain address radius where c: "c = (address, radius)"
    by (cases c)
  show ?case
    unfolding c run_calls.simps
    by (rule Cons.IH) (rule useAddressProcessor_processAddress_ok [OF Cons.prems])
qed

section \<open>The claims about a run of the service\<close>

subsection \<open>C1: a repeated call\<close>

text \<open>
  The frontend keeps no cache, and \<^verbatim>\<open>AddressResponse\<close> has no \<^verbatim>\<open>cache_hit\<close> field. With a
  backend that answers every request with a success, the second of two equal calls
  publishes all five steps and issues a second upstream request: it is not served from a
  cache. This refutes claim C1 as it is stated.
\<close>

theorem second_call_not_served_from_cache:
  "map fst (heard (snd (second_call echo_server
                          ''1600 Pennsylvania Avenue NW, Washington, DC'' (Some 1000)))) =
     [''geocoding'', ''amenities'', ''categorizing'', ''analyzing'', ''complete''] \<and>
   length (sent (snd (first_call echo_server
                        ''1600 Pennsylvania Avenue NW, Washington, DC'' (Some 1000)))) = 1 \<and>
   length (sent (snd (second_call echo_server
                        ''1600 Pennsylvania Avenue NW, Washington, DC'' (Some 1000)))) = 2 \<and>
   \<not> served_from_cache echo_server ''1600 Pennsylvania Avenue NW, Washington, DC'' (Some 1000)"
  by (simp add: served_from_cache_def second_call_def first_call_def
        processAddressWithProgress_recorder checked_def echo_server_def)

text \<open>
  Claim C1, amended. \<^verbatim>\<open>processAddressWithProgress\<close> never answers from a cache. Whatever
  requests were issued before, in particular after an earlier call with the same address
  and radius: a call with a callback that returns normally issues exactly one more upstream
  request, the POST of its address and radius, and its callback receives the four stage
  events followed by \<^verbatim>\<open>complete\<close> when the call returns and by \<^verbatim>\<open>error\<close> when it throws; a call
  without a callback issues exactly one request as well and publishes nothing; a call with
  any other callback issues at most one request. For the two calls with a recording
  callback this gives two equal requests and five published steps in the second call.
\<close>

theorem repeated_call_not_cached:
  "((\<forall>step d l. fst (f step d l) = Inr ()) \<longrightarrow>
      sent (snd (processAddressWithProgress srv address radius (Some f) w)) =
        sent w @ [request address radius] \<and>
      heard (snd (processAddressWithProgress srv address radius (Some f) w)) =
        deliver f (heard w)
          (stage_events @
           [terminal_event (fst (processAddressWithProgress srv address radius (Some f) w))]) \<and>
      fst (terminal_event (fst (processAddressWithProgress srv address radius (Some f) w))) =
        (case fst (processAddressWithProgress srv address radius (Some f) w) of
           Inr _ \<Rightarrow> ''complete'' | Inl _ \<Rightarrow> ''error'')) \<and>
   sent (snd (processAddressWithProgress srv address radius None w)) =
     sent w @ [request address radius] \<and>
   heard (snd (processAddressWithProgress srv address radius None w)) = heard w \<and>
   (sent (snd (processAddressWithProgress srv address radius onProgress w)) = sent w \<or>
    sent (snd (processAddressWithProgress srv address radius onProgress w)) =
      sent w @ [request address radius]) \<and>
   sent (snd (second_call srv address radius)) =
     [request address radius, request address radius] \<and>
   map fst (heard (snd (second_call srv address radius))) =
     [''geocoding'', ''amenities'', ''categorizing'', ''analyzing'',
      (case fst (second_call srv address radius) of
         Inr _ \<Rightarrow> ''complete'' | Inl _ \<Rightarrow> ''error'')]"
proof -
  have quiet: "sent (snd (processAddressWithProgress srv address radius (Some f) w)) =
        sent w @ [request address radius] \<and>
      heard (snd (processAddressWithProgress srv address radius (Some f) w)) =
        deliver f (heard w)
          (stage_events @
           [terminal_event (fst (processAddressWithProgress srv address radius (Some f) w))]) \<and>
      fst (terminal_event (fst (processAddressWithProgress srv address radius (Some f) w))) =
        (case fst (processAddressWithProgress srv address radius (Some f) w) of
           Inr _ \<Rightarrow> ''complete'' | Inl _ \<Rightarrow> ''error'')"
    if "\<forall>step d l. fst (f step d l) = Inr ()"
  proof -
    from that have q: "\<And>step d l. fst (f step d l) = Inr ()"
      by blast
    show ?thesis
      by (simp add: processAddressWithProgress_quiet [OF q])
  qed
  have none: "sent (snd (processAddressWithProgress srv address radius None w)) =
                sent w @ [request address radius] \<and>
              heard (snd (processAddressWithProgress srv address radius None w)) = heard w"
    by (simp add: processAddressWithProgress_unheard processAddress_eq)
  have any: "sent (snd (processAddressWithProgress srv address radius onProgress w)) = sent w \<or>
             sent (snd (processAddressWithProgress srv address radius onProgress w)) =
               sent w @ [request address radius]"
    using processAddressWithProgress_may_send [of address radius srv onProgress]
    by (simp add: may_send_def)
  have two: "sent (snd (second_call srv address radius)) =
               [request address radius, request address radius] \<and>
             map fst (heard (snd (second_call srv address radius))) =
               [''geocoding'', ''amenities'', ''categorizing'', ''analyzing'',
                (case fst (second_call srv address radius) of
                   Inr _ \<Rightarrow> ''complete'' | Inl _ \<Rightarrow> ''error'')]"
    by (simp add: second_call_def first_call_def processAddressWithProgress_recorder)
  from quiet none any two show ?thesis
    by blast
qed

theorem repeated_call_not_cached_echo:
  "sent (snd (processAddressWithProgress echo_server ''1 Main St'' (Some 1000) (Some recorder)
                \<lparr>sent = [\<lparr>req_address = ''1 Main St'', req_radius = 1000\<rparr>], heard = []\<rparr>)) =
     [\<lparr>req_address = ''1 Main St'', req_radius = 1000\<rparr>,
      \<lparr>req_address = ''1 Main St'', req_radius = 1000\<rparr>] \<and>
   map fst (heard (snd (processAddressWithProgress echo_server ''1 Main St'' (Some 1000)
                          (Some recorder)
                          \<lparr>sent = [\<lparr>req_address = ''1 Main St'', req_radius = 1000\<rparr>],
                           heard = []\<rparr>))) =
     [''geocoding'', ''amenities'', ''categorizing'', ''analyzing'', ''complete'']"
proof -
  let ?w = "\<lparr>sent = [\<lparr>req_address = ''1 Main St'', req_radius = 1000\<rparr>],
             heard = [] :: (string \<times> payload) list\<rparr>"
  have q: "\<forall>step d l. fst (recorder step d l) = Inr ()"
    by (simp add: recorder_quiet)
  have r: "fst (processAddressWithProgress echo_server ''1 Main St'' (Some 1000) (Some recorder) ?w)
             = Inr \<lparr>success = True, resp_address = ''1 Main St'', coordinates = None,
                    amenities = [], categorized_amenities = Some [], result = None,
                    error = None, radius_used = 1000\<rparr>"
    by (simp add: processAddressWithProgress_recorder checked_def echo_server_def request_def
          radius_or_default_def)
  from repeated_call_not_cached
         [of recorder echo_server "''1 Main St''" "Some 1000" ?w None] q
  have "sent (snd (processAddressWithProgress echo_server ''1 Main St'' (Some 1000)
                     (Some recorder) ?w)) = sent ?w @ [request ''1 Main St'' (Some 1000)] \<and>
        heard (snd (processAddressWithProgress echo_server ''1 Main St'' (Some 1000)
                      (Some recorder) ?w)) =
          deliver recorder (heard ?w)
            (stage_events @
             [terminal_event (fst (processAddressWithProgress echo_server ''1 Main St''
                                     (Some 1000) (Some recorder) ?w))])"
    by blast
  then show ?thesis
    unfolding r by (simp add: deliver_recorder request_def radius_or_default_def)
qed

subsection \<open>C2: the terminal event\<close>

text \<open>
  The progress callback is optional. A call without one publishes nothing, so it publishes
  no terminal event either. This refutes claim C2 as it is stated, for every call.
\<close>

theorem no_listener_no_terminal_event:
  "heard (snd (processAddressWithProgress echo_server ''1 Main St'' (Some 1000) None
                 \<lparr>sent = [], heard = [] :: (string \<times> payload) list\<rparr>)) = [] \<and>
   \<not> one_terminal_last
        (map fst (heard (snd (processAddressWithProgress echo_server ''1 Main St'' (Some 1000)
                                None \<lparr>sent = [], heard = [] :: (string \<times> payload) list\<rparr>))))"
  by (simp add: processAddressWithProgress_unheard processAddress_eq one_terminal_last_def)

text \<open>
  Claim C2, amended. When a call of \<^verbatim>\<open>processAddressWithProgress\<close> is given a callback that
  returns normally whenever it is called, the callback is called with the four stage events
  and then with one terminal event, in this order and with nothing after it: exactly one
  published event is terminal and it is the last. Its step is \<^verbatim>\<open>complete\<close> when the call
  returns and \<^verbatim>\<open>error\<close> when the call throws.
\<close>

theorem one_terminal_event_last:
  assumes quiet: "\<And>step d l. fst (f step d l) = Inr ()"
  shows "heard (snd (processAddressWithProgress srv address radius (Some f) w)) =
           deliver f (heard w)
             (stage_events @
              [terminal_event (fst (processAddressWithProgress srv address radius (Some f) w))]) \<and>
         one_terminal_last
           (map fst
              (stage_events @
               [terminal_event (fst (processAddressWithProgress srv address radius (Some f) w))])) \<and>
         fst (terminal_event (fst (processAddressWithProgress srv address radius (Some f) w))) =
           (case fst (processAddressWithProgress srv address radius (Some f) w) of
              Inr _ \<Rightarrow> ''complete'' | Inl _ \<Rightarrow> ''error'')"
  unfolding processAddressWithProgress_quiet [OF quiet]
  by (simp add: one_terminal_last_run)

theorem one_terminal_event_last_recorded:
  "map fst (heard (snd (processAddressWithProgress not_found_server ''Nowhere 1'' None
                          (Some recorder) \<lparr>sent = [], heard = []\<rparr>))) =
     [''geocoding'', ''amenities'', ''categorizing'', ''analyzing'', ''error''] \<and>
   one_terminal_last [''geocoding'', ''amenities'', ''categorizing'', ''analyzing'', ''error'']"
proof -
  have r: "fst (processAddressWithProgress not_found_server ''Nowhere 1'' None (Some recorder)
                  \<lparr>sent = [], heard = []\<rparr>) = Inl (JsError ''Could not geocode address'')"
    by (simp add: processAddressWithProgress_recorder checked_def not_found_server_def)
  from one_terminal_event_last
         [of recorder not_found_server "''Nowhere 1''" None "\<lparr>sent = [], heard = []\<rparr>",
          OF recorder_quiet]
  show ?thesis
    unfolding r by (simp add: deliver_recorder stage_events_def terminal_event_def)
qed

text \<open>
  Why the callback has to return normally: the call of the callback for \<^verbatim>\<open>complete\<close> stands
  inside the \<^verbatim>\<open>try\<close> block. A callback that throws there is called again with \<^verbatim>\<open>error\<close>, and
  the call throws although the backend answered with a success.
\<close>

lemma failing_listener_hears_complete_and_error:
  "map fst (heard (snd (processAddressWithProgress echo_server ''1 Main St'' None (Some fussy)
                          \<lparr>sent = [], heard = []\<rparr>))) =
     [''geocoding'', ''amenities'', ''categorizing'', ''analyzing'', ''complete'', ''error''] \<and>
   fst (processAddressWithProgress echo_server ''1 Main St'' None (Some fussy)
          \<lparr>sent = [], heard = []\<rparr>) = Inl (JsError ''listener failed'')"
  by (simp add: processAddressWithProgress_def call_onProgress_def fussy_def
        fetch_process_address_def json_def prog_defs echo_server_def)

subsection \<open>C3: the radius that is transmitted\<close>

text \<open>
  \<^verbatim>\<open>AddressService.processAddress\<close> called with the radius 50 posts the radius 50: the
  radius is neither clamped nor rejected. This refutes claim C3 as it is stated.
\<close>

theorem radius_50_is_transmitted:
  "sent (snd (processAddress echo_server ''1 Main St'' (Some 50) \<lparr>sent = [], heard = ()\<rparr>)) =
     [\<lparr>req_address = ''1 Main St'', req_radius = 50\<rparr>] \<and>
   \<not> list_all radius_in_bounds
        (sent (snd (processAddress echo_server ''1 Main St'' (Some 50)
                      \<lparr>sent = [], heard = ()\<rparr>)))"
  by (simp add: processAddress_eq request_def radius_or_default_def radius_in_bounds_def)

text \<open>
  Claim C3, amended. \<^verbatim>\<open>AddressService.processAddress\<close> issues exactly one upstream request,
  and \<^verbatim>\<open>processAddressWithProgress\<close> at most one, whatever its callback does; the radius of
  that request is the radius the caller passed, or 1000 when the caller passed none. So a
  transmitted radius lies in \<open>[100, 10000]\<close> exactly when the caller's radius does.
\<close>

theorem radius_transmitted_unchanged:
  "sent (snd (processAddress srv address radius w)) = sent w @ [request address radius] \<and>
   (sent (snd (processAddressWithProgress srv address radius onProgress w)) = sent w \<or>
    sent (snd (processAddressWithProgress srv address radius onProgress w)) =
      sent w @ [request address radius]) \<and>
   req_radius (request address radius) = (case radius of None \<Rightarrow> 1000 | Some r \<Rightarrow> r) \<and>
   radius_in_bounds (request address (Some r)) = (100 \<le> r \<and> r \<le> 10000)"
  using processAddressWithProgress_may_send [of address radius srv onProgress]
  by (simp add: processAddress_eq may_send_def request_def radius_or_default_def
        radius_in_bounds_def)

subsection \<open>C4: how a failure reaches the caller\<close>

text \<open>
  When the backend reports that the address cannot be resolved, and when it answers with
  the status 503, \<^verbatim>\<open>AddressService.processAddress\<close> throws a plain \<^verbatim>\<open>Error\<close>. This refutes
  claim C4 as it is stated.
\<close>

theorem processAddress_throws_on_failure:
  "fst (processAddress not_found_server ''Nowhere 1'' (Some 1000) \<lparr>sent = [], heard = ()\<rparr>) =
     Inl (JsError ''Could not geocode address'') \<and>
   fst (processAddress unavailable_server ''1 Main St'' (Some 1000) \<lparr>sent = [], heard = ()\<rparr>) =
     Inl (JsError ''HTTP error! status: 503'')"
proof -
  have "show_nat 503 = ''503''"
    by code_simp
  then show ?thesis
    by (simp add: processAddress_eq checked_def not_found_server_def unavailable_server_def)
qed

text \<open>
  Claim C4, amended. \<^verbatim>\<open>AddressService.processAddress\<close>, and \<^verbatim>\<open>processAddressWithProgress\<close>
  without a callback or with one that returns normally, throws in exactly four cases: the
  \<^verbatim>\<open>fetch\<close> rejects (the rejection is thrown), the response is not \<^verbatim>\<open>ok\<close> (a plain \<^verbatim>\<open>Error\<close>
  "HTTP error! status: N"), \<^verbatim>\<open>response.json()\<close> rejects (its rejection is thrown), or the body
  has \<open>success\<close> false and a non-empty \<open>error\<close> string (a plain \<^verbatim>\<open>Error\<close> with that string). In
  every other case it returns the body, also a body with \<open>success\<close> false and no \<open>error\<close>
  string. The hook's \<^verbatim>\<open>processAddress\<close> never throws: when the service throws it ends in the
  state \<open>loading = false, result = null, error = message\<close> (the message of the thrown
  \<^verbatim>\<open>Error\<close>, or "An error occurred" for any other thrown value), and when the service returns
  it ends in the state \<open>loading = false, result = the body, error = null\<close>.
\<close>

theorem failure_thrown_by_service_surfaced_by_hook:
  "fst (processAddress srv address radius w) =
     (case srv (sent w) (request address radius) of
        Rejected e \<Rightarrow> Inl e
      | Resolved response \<Rightarrow>
          if \<not> ok response
          then Inl (JsError (''HTTP error! status: '' @ show_nat (status response)))
          else (case body response of
                  Unparsable e \<Rightarrow> Inl e
                | Parsed r \<Rightarrow>
                    (case error r of
                       Some msg \<Rightarrow>
                         if \<not> success r \<and> msg \<noteq> [] then Inl (JsError msg) else Inr r
                     | None \<Rightarrow> Inr r))) \<and>
   fst (processAddressWithProgress srv address radius None w) =
     fst (processAddress srv address radius w) \<and>
   ((\<forall>step d l. fst (f step d l) = Inr ()) \<longrightarrow>
      fst (processAddressWithProgress srv address radius (Some f) w) =
        fst (processAddress srv address radius w)) \<and>
   fst (useAddressProcessor_processAddress srv address radius w) = Inr () \<and>
   current (heard (snd (useAddressProcessor_processAddress srv address radius w))) =
     (case fst (processAddress srv address radius w) of
        Inl e \<Rightarrow>
          \<lparr>loading = False, st_result = None,
           st_error = Some (case e of JsError m \<Rightarrow> m | NonErrorValue \<Rightarrow> ''An error occurred''),
           currentStep = ''error'', progressMessage = ''Error occurred''\<rparr>
      | Inr res \<Rightarrow>
          \<lparr>loading = False, st_result = Some res, st_error = None,
           currentStep = ''complete'', progressMessage = ''Analysis complete!''\<rparr>)"
proof -
  have service: "fst (processAddress srv address radius w) =
                   checked (srv (sent w) (request address radius))"
    by (simp add: processAddress_eq)
  have quiet: "fst (processAddressWithProgress srv address radius (Some f) w) =
                 fst (processAddress srv address radius w)"
    if "\<forall>step d l. fst (f step d l) = Inr ()"
  proof -
    from that have q: "\<And>step d l. fst (f step d l) = Inr ()"
      by blast
    show ?thesis
      by (simp add: processAddressWithProgress_quiet [OF q] processAddress_eq)
  qed
  have hook: "fst (useAddressProcessor_processAddress srv address radius w) = Inr () \<and>
              current (heard (snd (useAddressProcessor_processAddress srv address radius w))) =
                (case fst (processAddress srv address radius w) of
                   Inl e \<Rightarrow>
                     \<lparr>loading = False, st_result = None,
                      st_error = Some (case e of JsError m \<Rightarrow> m
                                       | NonErrorValue \<Rightarrow> ''An error occurred''),
                      currentStep = ''error'', progressMessage = ''Error occurred''\<rparr>
                 | Inr res \<Rightarrow>
                     \<lparr>loading = False, st_result = Some res, st_error = None,
                      currentStep = ''complete'', progressMessage = ''Analysis complete!''\<rparr>)"
    by (simp add: useAddressProcessor_processAddress_eq processAddress_eq current_def
        split: sum.split)
  from service quiet hook show ?thesis
    unfolding checked_def
    by (simp add: processAddressWithProgress_unheard)
qed

theorem failure_thrown_by_service_surfaced_by_hook_not_found:
  "fst (processAddressWithProgress not_found_server ''Nowhere 1'' None (Some progress_update)
          \<lparr>sent = [], heard = []\<rparr>) = Inl (JsError ''Could not geocode address'') \<and>
   current (heard (snd (useAddressProcessor_processAddress not_found_server ''Nowhere 1'' None
                          \<lparr>sent = [], heard = []\<rparr>))) =
     \<lparr>loading = False, st_result = None, st_error = Some ''Could not geocode address'',
      currentStep = ''error'', progressMessage = ''Error occurred''\<rparr>"
proof -
  let ?w = "\<lparr>sent = [], heard = [] :: ProcessingState list\<rparr>"
  have q: "\<forall>step d l. fst (progress_update step d l) = Inr ()"
    by (simp add: progress_update_quiet)
  have srv: "not_found_server (sent ?w) (request ''Nowhere 1'' None) =
               Resolved \<lparr>ok = True, status = 200,
                 body = Parsed \<lparr>success = False, resp_address = ''Nowhere 1'', coordinates = None,
                                amenities = [], categorized_amenities = None, result = None,
                                error = Some ''Could not geocode address'',
                                radius_used = 1000\<rparr>\<rparr>"
    by (simp add: not_found_server_def request_def radius_or_default_def)
  from failure_thrown_by_service_surfaced_by_hook
         [of not_found_server "''Nowhere 1''" None ?w progress_update] q
  show ?thesis
    unfolding srv by simp
qed

text \<open>
  A reply with \<open>success\<close> false and no \<open>error\<close> string is a success for both layers: the
  hook ends with this reply as its result and without an error.
\<close>

lemma silent_failure_reported_as_complete:
  "current (heard (snd (useAddressProcessor_processAddress silent_failure_server ''Nowhere 1''
                          None \<lparr>sent = [], heard = []\<rparr>))) =
     \<lparr>loading = False, st_result = Some silent_failure, st_error = None,
      currentStep = ''complete'', progressMessage = ''Analysis complete!''\<rparr>"
  by (simp add: useAddressProcessor_processAddress_eq checked_def silent_failure_server_def
        silent_failure_def current_def)

subsection \<open>C5: an empty search\<close>



text \<open>
  The fallback keeps the invariant of a categorized result for every list of POI: each POI
  is listed under exactly one category.
\<close>

lemma count_list_filter: "count_list (filter P xs) x = (if P x then count_list xs x else 0)"
  by (induction xs) auto

lemma count_list_groups:
  assumes "distinct cs"
  shows "count_list (concat (map (\<lambda>c. filter (\<lambda>p. f p = c) pois) cs)) p =
           (if f p \<in> set cs then count_list pois p else 0)"
  using assms by (induction cs) (auto simp: count_list_filter)

lemma concat_nonempty_groups:
  "concat (map snd (filter (\<lambda>(c, ps). ps \<noteq> []) xs)) = concat (map snd xs)"
  by (induction xs) auto

lemma fallback_categorize_categorizes: "categorizes (fallback_categorize rule pois) pois"
proof -
  let ?cs = "[''Education'', ''Healthcare'', ''Dining'', ''Banking'', ''Shopping'', ''Recreation'',
             ''Transportation'', ''Other'']"
  have d: "distinct ?cs"
    by simp
  have o: "''Other'' \<in> set ?cs"
    by simp
  have m: "fallback_category rule p \<in> set ?cs" for p
    unfolding fallback_category_def using o
    by (cases "rule (category_raw p) \<in> set ?cs") (simp_all only: if_True if_False)
  have "concat (map snd (fallback_categorize rule pois)) =
          concat (map (\<lambda>c. filter (\<lambda>p. fallback_category rule p = c) pois) ?cs)"
    unfolding fallback_categorize_def concat_nonempty_groups
    by (simp only: map_map o_def snd_conv)
  then show ?thesis
    unfolding categorizes_def
    using count_list_groups [OF d, of "fallback_category rule" pois] m
    by (simp only: if_True simp_thms)
qed



text \<open>
  The frontend's part in an empty result: for a categorized map that lists no amenity,
  \<^verbatim>\<open>AmenitiesBentoGrid\<close> returns the notice "No amenities found in the specified radius.".
\<close>

lemma AmenitiesBentoGrid_empty:
  assumes "concat (map snd cats) = []"
  shows "AmenitiesBentoGrid cats = NoAmenitiesFound"
proof -
  from assms have "filter (\<lambda>(_, its). length its > 0) cats = []"
    by (induction cats) auto
  then show ?thesis
    by (simp add: AmenitiesBentoGrid_def)
qed

subsection \<open>C6: the names of the steps\<close>

text \<open>
  A successful run publishes the step \<^verbatim>\<open>amenities\<close>, which is not one of the six stage names
  of the specification. This refutes claim C6 as it is stated.
\<close>

theorem published_step_outside_spec_stages:
  "published echo_server ''1 Main St'' (Some 1000) [] =
     [''geocoding'', ''amenities'', ''categorizing'', ''analyzing'', ''complete''] \<and>
   \<not> in_spec_stages ''amenities'' \<and>
   \<not> list_all in_spec_stages (published echo_server ''1 Main St'' (Some 1000) [])"
  by (simp add: published_eq checked_def echo_server_def in_spec_stages_def spec_stages_def)

text \<open>
  Claim C6, amended. Every step a run publishes is one of the six names the code uses:
  \<^verbatim>\<open>geocoding\<close>, \<^verbatim>\<open>amenities\<close>, \<^verbatim>\<open>categorizing\<close>, \<^verbatim>\<open>analyzing\<close>, \<^verbatim>\<open>complete\<close> and \<^verbatim>\<open>error\<close>. The
  loader of the page shows them as its steps 0, 1, 2, 3 and then 4 for \<^verbatim>\<open>complete\<close>, or 0 for
  \<^verbatim>\<open>error\<close>.
\<close>

theorem published_steps_in_code_steps:
  "list_all in_code_steps (published srv address radius history) \<and>
   map loader_currentStep (published srv address radius history) =
     [0, 1, 2, 3,
      (case fst (processAddress srv address radius \<lparr>sent = history, heard = ()\<rparr>) of
         Inr _ \<Rightarrow> 4 | Inl _ \<Rightarrow> 0)]"
  by (simp add: published_eq processAddress_eq in_code_steps_def code_steps_def
        loader_currentStep_def split: sum.split)

section \<open>The claims about the categories\<close>

subsection \<open>C7: the category names\<close>






section \<open>The claims about single components\<close>

subsection \<open>C8: when \<^verbatim>\<open>processAddress\<close> returns\<close>

text \<open>
  Claim C8. \<^verbatim>\<open>AddressService.processAddress\<close> returns the parsed response \<open>r\<close> exactly
  when the \<^verbatim>\<open>fetch\<close> resolved to a response that is \<^verbatim>\<open>ok\<close>, whose body parses to \<open>r\<close>, and \<open>r\<close>
  does not have \<open>success\<close> false together with a non-empty \<open>error\<close> string; it throws exactly
  when it does not return. So a body with \<open>success\<close> false and a missing or empty \<open>error\<close>
  is returned like a success.
\<close>

theorem processAddress_returns_iff:
  "(fst (processAddress srv address radius w) = Inr r \<longleftrightarrow>
      (\<exists>st. srv (sent w) (request address radius)
             = Resolved \<lparr>ok = True, status = st, body = Parsed r\<rparr>) \<and>
      \<not> (\<not> success r \<and> error r \<noteq> None \<and> error r \<noteq> Some [])) \<and>
   ((\<exists>e. fst (processAddress srv address radius w) = Inl e) \<longleftrightarrow>
      \<not> (\<exists>st r'. srv (sent w) (request address radius)
                  = Resolved \<lparr>ok = True, status = st, body = Parsed r'\<rparr> \<and>
                \<not> (\<not> success r' \<and> error r' \<noteq> None \<and> error r' \<noteq> Some [])))"
proof -
  let ?out = "srv (sent w) (request address radius)"
  have res: "fst (processAddress srv address radius w) = checked ?out"
    by (simp add: processAddress_eq)
  have "(\<exists>e. checked ?out = Inl e) \<longleftrightarrow> \<not> (\<exists>r'. checked ?out = Inr r')"
    by (cases "checked ?out") simp_all
  then show ?thesis
    unfolding res checked_Inr_iff by blast
qed

theorem processAddress_returns_silent_failure:
  "fst (processAddress silent_failure_server ''Nowhere 1'' None \<lparr>sent = [], heard = ()\<rparr>)
     = Inr silent_failure \<and>
   success silent_failure = False \<and> error silent_failure = None"
proof -
  have "fst (processAddress silent_failure_server ''Nowhere 1'' None \<lparr>sent = [], heard = ()\<rparr>)
          = Inr silent_failure"
    by (rule iffD2 [OF conjunct1 [OF processAddress_returns_iff]])
       (simp add: silent_failure_server_def silent_failure_def)
  then show ?thesis
    by (simp add: silent_failure_def)
qed

subsection \<open>C9: pagination of a category card\<close>

lemma totalPages_div: "totalPages xs = (int (length xs) + 7) div 8"
proof -
  have "totalPages xs = \<lceil>of_int (int (length xs)) / of_int 8 :: real\<rceil>"
    by (simp add: totalPages_def itemsPerPage_def)
  also have "\<dots> = - (- int (length xs) div 8)"
    by (rule ceiling_divide_eq_div)
  also have "\<dots> = (int (length xs) + 7) div 8"
    by presburger
  finally show ?thesis .
qed

lemma totalPages_nonneg: "0 \<le> totalPages xs"
  by (simp add: totalPages_div)

lemma totalPages_covers: "length xs \<le> nat (totalPages xs) * 8"
  unfolding totalPages_div by linarith

lemma click_in_range:
  assumes "0 \<le> p" and "p \<le> max 0 (totalPages xs - 1)"
  shows "0 \<le> click xs p b \<and> click xs p b \<le> max 0 (totalPages xs - 1)"
  using assms
  by (cases b) (auto simp: click_def goToPrevious_def goToNext_def)

lemma clicks_in_range:
  assumes "0 \<le> p" and "p \<le> max 0 (totalPages xs - 1)"
  shows "0 \<le> foldl (click xs) p bs \<and> foldl (click xs) p bs \<le> max 0 (totalPages xs - 1)"
  using assms
proof (induction bs arbitrary: p)
  case Nil
  then show ?case by simp
next
  case (Cons b bs)
  from click_in_range [OF Cons.prems, of b] show ?case
    by (simp add: Cons.IH)
qed

lemma currentItems_page: "currentItems xs (int p) = take 8 (drop (p * 8) xs)"
proof (cases "p * 8 \<le> length xs")
  case True
  then have "currentItems xs (int p) = take (min (p * 8 + 8) (length xs) - p * 8) (drop (p * 8) xs)"
    by (simp add: currentItems_def js_slice_def itemsPerPage_def Let_def min_def nat_diff_distrib' nat_add_distrib nat_mult_distrib algebra_simps)
  also have "\<dots> = take 8 (drop (p * 8) xs)"
    by (simp add: min_def)
  finally show ?thesis .
next
  case False
  then show ?thesis
    by (simp add: currentItems_def js_slice_def itemsPerPage_def Let_def min_def)
qed

lemma pages_concat: "concat (map (\<lambda>p. take 8 (drop (p * 8) xs)) [0..<k]) = take (k * 8) xs"
proof (induction k)
  case 0
  then show ?case by simp
next
  case (Suc k)
  have "take (Suc k * 8) xs = take (k * 8) xs @ take 8 (drop (k * 8) xs)"
    by (simp add: take_add [symmetric] add.commute)
  with Suc show ?case by simp
qed

lemma totalPages_pos: "xs \<noteq> [] \<Longrightarrow> 1 \<le> totalPages xs"
  unfolding totalPages_div by (cases xs) simp_all

lemma press_in_range:
  assumes "xs \<noteq> []" and "0 \<le> p" and "p \<le> totalPages xs - 1"
  shows "0 \<le> press xs p b \<and> press xs p b \<le> totalPages xs - 1"
  using assms totalPages_pos [of xs]
  by (cases b) (auto simp: press_def goToPrevious_def goToNext_def)

lemma presses_in_range:
  assumes "xs \<noteq> []" and "0 \<le> p" and "p \<le> totalPages xs - 1"
  shows "0 \<le> foldl (press xs) p bs \<and> foldl (press xs) p bs \<le> totalPages xs - 1"
  using assms(2,3)
proof (induction bs arbitrary: p)
  case Nil
  then show ?case
    by simp
next
  case (Cons b bs)
  have "0 \<le> press xs p b" and "press xs p b \<le> totalPages xs - 1"
    using press_in_range [OF assms(1) Cons.prems, of b] by blast+
  from Cons.IH [OF this] show ?case
    by simp
qed

text \<open>
  On a card without items the handler of Next would leave the range. Such a card does not
  exist (the grid drops the categories without items), and a card of at most eight items
  has no buttons.
\<close>

lemma goToNext_on_empty_card: "goToNext ([] :: Amenity list) 0 = - 1"
  by (simp add: goToNext_def totalPages_div)

text \<open>
  Claim C9. For a card with any list of \<open>n\<close> items, the page index reached from page 0 by
  any sequence of clicks on Previous and Next lies between 0 and
  \<open>max 0 (ceil (n / 8) - 1)\<close>; for a card that has items the same holds when the two
  handlers are run whether or not their buttons can be clicked. Previous stays at 0 on the
  first page and Next stays on the last page. The slices of the pages
  \<open>0, ..., totalPages - 1\<close>, one after the other, are the list of items itself, so that no
  item is dropped or shown twice.
\<close>

theorem pagination_in_range_and_complete:
  "0 \<le> foldl (click xs) 0 bs \<and> foldl (click xs) 0 bs \<le> max 0 (totalPages xs - 1) \<and>
   (xs \<noteq> [] \<longrightarrow>
      0 \<le> foldl (press xs) 0 bs \<and> foldl (press xs) 0 bs \<le> max 0 (totalPages xs - 1)) \<and>
   goToPrevious 0 = 0 \<and> goToNext xs (totalPages xs - 1) = totalPages xs - 1 \<and>
   concat (map (\<lambda>p. currentItems xs (int p)) [0..<nat (totalPages xs)]) = xs"
proof -
  have "concat (map (\<lambda>p. currentItems xs (int p)) [0..<nat (totalPages xs)]) =
          take (nat (totalPages xs) * 8) xs"
    by (simp add: currentItems_page pages_concat)
  also have "\<dots> = xs"
    using totalPages_covers [of xs] by simp
  finally have pages:
    "concat (map (\<lambda>p. currentItems xs (int p)) [0..<nat (totalPages xs)]) = xs" .
  have clicks: "0 \<le> foldl (click xs) 0 bs \<and> foldl (click xs) 0 bs \<le> max 0 (totalPages xs - 1)"
    by (rule clicks_in_range) simp_all
  have presses:
    "0 \<le> foldl (press xs) 0 bs \<and> foldl (press xs) 0 bs \<le> max 0 (totalPages xs - 1)"
    if "xs \<noteq> []"
    using presses_in_range [OF that, of 0 bs] totalPages_pos [OF that] by simp
  from pages clicks presses show ?thesis
    by (simp add: goToPrevious_def goToNext_def)
qed

theorem pagination_of_nineteen_items:
  "''abcdefghijklmnopqrs'' \<noteq> [] \<and>
   foldl (press ''abcdefghijklmnopqrs'') 0 [Next, Next, Next, Next, Previous] = 1 \<and>
   0 \<le> foldl (press ''abcdefghijklmnopqrs'') 0 [Next, Next, Next, Next, Previous] \<and>
   foldl (press ''abcdefghijklmnopqrs'') 0 [Next, Next, Next, Next, Previous]
     \<le> max 0 (totalPages ''abcdefghijklmnopqrs'' - 1) \<and>
   totalPages ''abcdefghijklmnopqrs'' = 3 \<and>
   map (currentItems ''abcdefghijklmnopqrs'') [0, 1, 2] = [''abcdefgh'', ''ijklmnop'', ''qrs''] \<and>
   concat (map (\<lambda>p. currentItems ''abcdefghijklmnopqrs'' (int p))
             [0..<nat (totalPages ''abcdefghijklmnopqrs'')]) = ''abcdefghijklmnopqrs''"
proof -
  have ne: "''abcdefghijklmnopqrs'' \<noteq> []"
    by simp
  have tp: "totalPages ''abcdefghijklmnopqrs'' = 3"
    by (simp add: totalPages_div)
  have run: "foldl (press ''abcdefghijklmnopqrs'') 0 [Next, Next, Next, Next, Previous] = 1"
    by (simp add: press_def goToNext_def goToPrevious_def tp)
  have pages: "map (currentItems ''abcdefghijklmnopqrs'') [0, 1, 2] =
                 [''abcdefgh'', ''ijklmnop'', ''qrs'']"
    by (simp add: currentItems_def js_slice_def itemsPerPage_def)
  from pagination_in_range_and_complete
         [of "''abcdefghijklmnopqrs''" "[Next, Next, Next, Next, Previous]"] ne
  have "0 \<le> foldl (press ''abcdefghijklmnopqrs'') 0 [Next, Next, Next, Next, Previous] \<and>
        foldl (press ''abcdefghijklmnopqrs'') 0 [Next, Next, Next, Next, Previous]
          \<le> max 0 (totalPages ''abcdefghijklmnopqrs'' - 1) \<and>
        concat (map (\<lambda>p. currentItems ''abcdefghijklmnopqrs'' (int p))
                  [0..<nat (totalPages ''abcdefghijklmnopqrs'')]) = ''abcdefghijklmnopqrs''"
    by blast
  with ne run tp pages show ?thesis
    by blast
qed

section \<open>The claim about the states of the hook\<close>

text \<open>
  Claim C10. Start from the initial state and call the hook's \<^verbatim>\<open>processAddress\<close> any number
  of times, one call after the other, with any backend and any arguments. In every state
  the hook passes through (the initial state, the state set at the start of a call, the
  state after every progress update and the state set at the end, on success and on
  failure) \<open>result\<close> and \<open>error\<close> are not both set, and when \<open>loading\<close> is true neither is set.
\<close>

theorem hook_states_consistent:
  "list_all state_ok (initialState # heard (run_calls srv calls \<lparr>sent = [], heard = []\<rparr>))"
proof -
  have "list_all state_ok (heard (run_calls srv calls \<lparr>sent = [], heard = []\<rparr>))"
    by (rule run_calls_ok) simp
  then show ?thesis
    by (simp add: initialState_def state_ok_def)
qed

theorem hook_states_consistent_two_calls:
  "list_all state_ok
     (initialState #
      heard (run_calls not_found_server [(''Nowhere 1'', None), (''Nowhere 1'', Some 500)]
               \<lparr>sent = [], heard = []\<rparr>)) \<and>
   length (heard (run_calls not_found_server [(''Nowhere 1'', None), (''Nowhere 1'', Some 500)]
                    \<lparr>sent = [], heard = []\<rparr>)) = 14 \<and>
   loading (heard (run_calls not_found_server [(''Nowhere 1'', None), (''Nowhere 1'', Some 500)]
                     \<lparr>sent = [], heard = []\<rparr>) ! 1) \<and>
   st_error (current (heard (run_calls not_found_server
                               [(''Nowhere 1'', None), (''Nowhere 1'', Some 500)]
                               \<lparr>sent = [], heard = []\<rparr>))) = Some ''Could not geocode address''"
proof -
  have "length (heard (run_calls not_found_server
                         [(''Nowhere 1'', None), (''Nowhere 1'', Some 500)]
                         \<lparr>sent = [], heard = []\<rparr>)) = 14 \<and>
        loading (heard (run_calls not_found_server
                          [(''Nowhere 1'', None), (''Nowhere 1'', Some 500)]
                          \<lparr>sent = [], heard = []\<rparr>) ! 1) \<and>
        st_error (current (heard (run_calls not_found_server
                                    [(''Nowhere 1'', None), (''Nowhere 1'', Some 500)]
                                    \<lparr>sent = [], heard = []\<rparr>))) =
          Some ''Could not geocode address''"
    by (simp add: useAddressProcessor_processAddress_eq checked_def not_found_server_def
          deliver_def stage_events_def terminal_event_def progress_update_def set_state_def
          current_def)
  with hook_states_consistent
         [of not_found_server "[(''Nowhere 1'', None), (''Nowhere 1'', Some 500)]"]
  show ?thesis
    by (rule conjI)
qed

end
